theory Spec2Isabelle
  imports Main "HOL-Library.Word"
begin

section \<open>JavaScript values shared by the embeddings\<close>

text \<open>
  A JavaScript string is a sequence of 16-bit code units. \<open>lit\<close> writes an ASCII
  literal of the source as such a sequence.
\<close>

type_synonym code_unit = "16 word"
type_synonym jsstring = "code_unit list"

definition lit :: "string \<Rightarrow> jsstring" where
  "lit s = map of_char s"

text \<open>
  A value that is either \<open>undefined\<close> (\<open>None\<close>) or a string. \<open>!v\<close> holds for
  \<open>undefined\<close> and for the empty string.
\<close>

definition falsy :: "jsstring option \<Rightarrow> bool" where
  "falsy v = (case v of None \<Rightarrow> True | Some s \<Rightarrow> s = [])"

datatype js_error = Error jsstring | SyntaxError | Unmodelled

section \<open>Storage client configuration (backend/src/cloudinary.js)\<close>

text \<open>
  \<open>process.env\<close> maps variable names to strings; an unset variable reads as
  \<open>undefined\<close>. The module state is the flag \<open>configured\<close> together with the
  settings held by the SDK object, which \<open>cloudinary.config\<close> merges into.
\<close>

type_synonym env = "jsstring \<rightharpoonup> jsstring"

record module_state =
  configured :: bool
  sdk_config :: "jsstring \<rightharpoonup> jsstring"

definition initial_state :: module_state where
  "initial_state = \<lparr>configured = False, sdk_config = Map.empty\<rparr>"

definition assertEnv :: "env \<Rightarrow> jsstring \<Rightarrow> js_error + jsstring" where
  "assertEnv e name =
     (if falsy (e name) then Inl (Error (lit ''Missing env var: '' @ name))
      else case e name of Some v \<Rightarrow> Inr v | None \<Rightarrow> Inl (Error (lit ''Missing env var: '' @ name)))"

definition CLOUDINARY_CLOUD_NAME :: jsstring where
  "CLOUDINARY_CLOUD_NAME = lit ''CLOUDINARY_CLOUD_NAME''"

definition CLOUDINARY_API_KEY :: jsstring where
  "CLOUDINARY_API_KEY = lit ''CLOUDINARY_API_KEY''"

definition CLOUDINARY_API_SECRET :: jsstring where
  "CLOUDINARY_API_SECRET = lit ''CLOUDINARY_API_SECRET''"

definition required_vars :: "jsstring list" where
  "required_vars = [CLOUDINARY_CLOUD_NAME, CLOUDINARY_API_KEY, CLOUDINARY_API_SECRET]"

text \<open>
  \<open>cloudinary.config(obj)\<close> merges the three properties of the object literal into
  the SDK settings. The properties of the literal are evaluated in source order, so the
  first missing variable is the one whose \<open>assertEnv\<close> throws, before \<open>config\<close> is
  entered and before the flag is assigned.
\<close>

definition cloudinary_config ::
  "jsstring \<Rightarrow> jsstring \<Rightarrow> jsstring \<Rightarrow> module_state \<Rightarrow> module_state" where
  "cloudinary_config cn k sec s =
     s\<lparr>sdk_config := (sdk_config s)(lit ''cloud_name'' \<mapsto> cn, lit ''api_key'' \<mapsto> k,
                                       lit ''api_secret'' \<mapsto> sec)\<rparr>"

definition ensureConfigured :: "env \<Rightarrow> module_state \<Rightarrow> (js_error + unit) \<times> module_state" where
  "ensureConfigured e s =
     (if configured s then (Inr (), s)
      else case assertEnv e CLOUDINARY_CLOUD_NAME of
        Inl err \<Rightarrow> (Inl err, s)
      | Inr cn \<Rightarrow>
        (case assertEnv e CLOUDINARY_API_KEY of
           Inl err \<Rightarrow> (Inl err, s)
         | Inr k \<Rightarrow>
           (case assertEnv e CLOUDINARY_API_SECRET of
              Inl err \<Rightarrow> (Inl err, s)
            | Inr sec \<Rightarrow> (Inr (), (cloudinary_config cn k sec s)\<lparr>configured := True\<rparr>))))"

text \<open>The first required variable, in the order the source reads them, that is missing.\<close>

definition first_missing :: "env \<Rightarrow> jsstring option" where
  "first_missing e = find (\<lambda>n. falsy (e n)) required_vars"

definition all_present :: "env \<Rightarrow> bool" where
  "all_present e = list_all (\<lambda>n. \<not> falsy (e n)) required_vars"

text \<open>Two environments used to exercise the routine.\<close>

definition env_no_key :: env where
  "env_no_key = [CLOUDINARY_CLOUD_NAME \<mapsto> lit ''demo'', CLOUDINARY_API_SECRET \<mapsto> lit ''s3cr3t'']"

definition env_full :: env where
  "env_full = [CLOUDINARY_CLOUD_NAME \<mapsto> lit ''demo'', CLOUDINARY_API_KEY \<mapsto> lit ''12345'',
               CLOUDINARY_API_SECRET \<mapsto> lit ''s3cr3t'']"

section \<open>Origin policy (the CORS middleware module)\<close>

subsection \<open>String operations of the language\<close>

definition BACKSLASH :: code_unit where "BACKSLASH = 0x5C"
definition STAR :: code_unit where "STAR = of_char CHR ''*''"
definition DOT :: code_unit where "DOT = of_char CHR ''.''"
definition CARET :: code_unit where "CARET = of_char CHR ''^''"
definition DOLLAR :: code_unit where "DOLLAR = of_char CHR ''$''"
definition COMMA :: code_unit where "COMMA = of_char CHR '',''"

text \<open>
  \<open>s.split(",")\<close>: the pieces between the separators; a string without a separator,
  the empty string included, gives one piece.
\<close>

fun split_on :: "code_unit \<Rightarrow> jsstring \<Rightarrow> jsstring list" where
  "split_on sep [] = [[]]"
| "split_on sep (c # cs) =
     (if c = sep then [] # split_on sep cs
      else (case split_on sep cs of
              [] \<Rightarrow> [[c]]
            | piece # pieces \<Rightarrow> (c # piece) # pieces))"

text \<open>
  \<open>s.trim()\<close> removes white space and line terminators from both ends: TAB, LF, VT,
  FF, CR, SPACE, NBSP, U+1680, U+2000 to U+200A, U+2028, U+2029, U+202F, U+205F, U+3000
  and U+FEFF.
\<close>

definition is_js_space :: "code_unit \<Rightarrow> bool" where
  "is_js_space c =
     (c = 0x09 \<or> c = 0x0A \<or> c = 0x0B \<or> c = 0x0C \<or> c = 0x0D \<or> c = 0x20 \<or> c = 0xA0
      \<or> c = 0x1680 \<or> (0x2000 \<le> c \<and> c \<le> 0x200A) \<or> c = 0x2028 \<or> c = 0x2029
      \<or> c = 0x202F \<or> c = 0x205F \<or> c = 0x3000 \<or> c = 0xFEFF)"

definition js_trim :: "jsstring \<Rightarrow> jsstring" where
  "js_trim s = rev (dropWhile is_js_space (rev (dropWhile is_js_space s)))"

subsection \<open>Regular expressions: the fragment the module builds\<close>

text \<open>
  \<open>new RegExp(src)\<close> is modelled for patterns made of \<open>^\<close>, \<open>$\<close>, \<open>.\<close>, literal
  characters, a backslash before a syntax character, and a \<open>*\<close> after \<open>.\<close> or after a
  character. A backslash at the end of the pattern is a syntax error; every other
  construct (which the language may accept or reject) is outside the fragment and
  reported as \<open>Unmodelled\<close>. No flag is set: \<open>^\<close> and \<open>$\<close> hold at the two ends of the
  input only, \<open>.\<close> matches every code unit but the four line terminators, and
  characters compare exactly.
\<close>

datatype re_atom = Literal code_unit | AnyChar
datatype re_term = Atom re_atom | Star re_atom | AssertStart | AssertEnd
type_synonym regex = "re_term list"

definition syntax_character :: "code_unit \<Rightarrow> bool" where
  "syntax_character c = (c \<in> set (lit ''^$.*+?()[]{}|'') \<or> c = BACKSLASH)"

definition quantified :: "re_atom \<Rightarrow> jsstring \<Rightarrow> re_term \<times> jsstring" where
  "quantified a s =
     (case s of
        [] \<Rightarrow> (Atom a, [])
      | c # cs \<Rightarrow> if c = STAR then (Star a, cs) else (Atom a, c # cs))"

definition cons_term :: "re_term \<Rightarrow> js_error + regex \<Rightarrow> js_error + regex" where
  "cons_term t r = (case r of Inl e \<Rightarrow> Inl e | Inr ts \<Rightarrow> Inr (t # ts))"

function parse_pattern :: "jsstring \<Rightarrow> js_error + regex" where
  "parse_pattern [] = Inr []"
| "parse_pattern (c # cs) =
     (if c = CARET then cons_term AssertStart (parse_pattern cs)
      else if c = DOLLAR then cons_term AssertEnd (parse_pattern cs)
      else if c = BACKSLASH then
        (case cs of
           [] \<Rightarrow> Inl SyntaxError
         | d # ds \<Rightarrow>
             if syntax_character d
             then (case quantified (Literal d) ds of
                     (t, rest) \<Rightarrow> cons_term t (parse_pattern rest))
             else Inl Unmodelled)
      else if c = DOT then
        (case quantified AnyChar cs of (t, rest) \<Rightarrow> cons_term t (parse_pattern rest))
      else if syntax_character c then Inl Unmodelled
      else (case quantified (Literal c) cs of
              (t, rest) \<Rightarrow> cons_term t (parse_pattern rest)))"
  by pat_completeness auto
termination
  by (relation "measure length") (auto simp add: quantified_def split: list.splits if_splits)

definition line_terminator :: "code_unit \<Rightarrow> bool" where
  "line_terminator c = (c = 0x0A \<or> c = 0x0D \<or> c = 0x2028 \<or> c = 0x2029)"

fun atom_matches :: "re_atom \<Rightarrow> code_unit \<Rightarrow> bool" where
  "atom_matches (Literal p) c = (c = p)"
| "atom_matches AnyChar c = (\<not> line_terminator c)"

text \<open>
  Backtracking matching of a term sequence at one position of the input: \<open>at_start\<close>
  says that the position is index 0, the string is the input from the position on.
  The result says whether some match begins at the position.
\<close>

fun matches :: "regex \<Rightarrow> bool \<Rightarrow> jsstring \<Rightarrow> bool" where
  "matches [] at_start s = True"
| "matches (AssertStart # ts) at_start s = (at_start \<and> matches ts at_start s)"
| "matches (AssertEnd # ts) at_start s = (s = [] \<and> matches ts at_start s)"
| "matches (Atom a # ts) at_start [] = False"
| "matches (Atom a # ts) at_start (c # cs) = (atom_matches a c \<and> matches ts False cs)"
| "matches (Star a # ts) at_start [] = matches ts at_start []"
| "matches (Star a # ts) at_start (c # cs) =
     ((atom_matches a c \<and> matches (Star a # ts) False cs) \<or> matches ts at_start (c # cs))"

text \<open>\<open>re.test(s)\<close> without the global or sticky flag tries every start index in turn.\<close>

fun search :: "regex \<Rightarrow> bool \<Rightarrow> jsstring \<Rightarrow> bool" where
  "search re at_start [] = matches re at_start []"
| "search re at_start (c # cs) = (matches re at_start (c # cs) \<or> search re False cs)"

definition test :: "regex \<Rightarrow> jsstring \<Rightarrow> bool" where
  "test re s = search re True s"

subsection \<open>The module's functions\<close>

text \<open>
  \<open>value.replace(/[.*+?^${}()|[\]\\]/g, "\\$&")\<close> puts a backslash before every
  character of the class.
\<close>

definition in_escape_class :: "code_unit \<Rightarrow> bool" where
  "in_escape_class c = (c \<in> set (lit ''.*+?^${}()|[]'') \<or> c = BACKSLASH)"

fun escapeRegExp :: "jsstring \<Rightarrow> jsstring" where
  "escapeRegExp [] = []"
| "escapeRegExp (c # cs) =
     (if in_escape_class c then BACKSLASH # c # escapeRegExp cs else c # escapeRegExp cs)"

text \<open>
  \<open>.replace(/\\\*/g, ".*")\<close> scans from the left and replaces each backslash directly
  followed by a star, resuming after the replaced pair.
\<close>

fun replace_escaped_star :: "jsstring \<Rightarrow> jsstring" where
  "replace_escaped_star (a # b # cs) =
     (if a = BACKSLASH \<and> b = STAR then DOT # STAR # replace_escaped_star cs
      else a # replace_escaped_star (b # cs))"
| "replace_escaped_star cs = cs"

definition toWildcardRegExp :: "jsstring \<Rightarrow> js_error + regex" where
  "toWildcardRegExp pattern =
     (let escaped = replace_escaped_star (escapeRegExp pattern)
      in parse_pattern ([CARET] @ escaped @ [DOLLAR]))"

text \<open>
  \<open>exact\<close> is a \<open>Set\<close>: its elements in insertion order, each once. \<open>wildcards\<close> is
  the array of compiled patterns.
\<close>

record allowed_origins =
  exact :: "jsstring list"
  wildcards :: "regex list"

definition set_add :: "jsstring \<Rightarrow> jsstring list \<Rightarrow> jsstring list" where
  "set_add x xs = (if x \<in> set xs then xs else xs @ [x])"

definition tokenize :: "jsstring \<Rightarrow> jsstring list" where
  "tokenize raw = filter (\<lambda>s. s \<noteq> []) (map js_trim (split_on COMMA raw))"

fun add_tokens :: "jsstring list \<Rightarrow> allowed_origins \<Rightarrow> js_error + allowed_origins" where
  "add_tokens [] a = Inr a"
| "add_tokens (token # tokens) a =
     (if STAR \<in> set token
      then (case toWildcardRegExp token of
              Inl e \<Rightarrow> Inl e
            | Inr re \<Rightarrow> add_tokens tokens (a\<lparr>wildcards := wildcards a @ [re]\<rparr>))
      else add_tokens tokens (a\<lparr>exact := set_add token (exact a)\<rparr>))"

definition parseAllowedOrigins :: "jsstring \<Rightarrow> js_error + allowed_origins" where
  "parseAllowedOrigins raw = add_tokens (tokenize raw) \<lparr>exact = [], wildcards = []\<rparr>"

text \<open>
  \<open>isAllowed\<close> receives \<open>req.headers.origin\<close>: \<open>undefined\<close> when the request has no
  Origin header, the header's value otherwise.
\<close>

definition isAllowed :: "allowed_origins \<Rightarrow> jsstring option \<Rightarrow> bool" where
  "isAllowed allowed origin =
     (if falsy origin then True
      else case origin of
        None \<Rightarrow> True
      | Some s \<Rightarrow>
          if s \<in> set (exact allowed) then True
          else list_ex (\<lambda>re. test re s) (wildcards allowed))"

text \<open>
  What a call of the \<open>origin\<close> option function does: it calls \<open>cb(err, verdict)\<close>, or
  it throws.
\<close>

datatype callback_outcome = Called "js_error option" bool | Thrown js_error

definition origin_function :: "allowed_origins \<Rightarrow> jsstring option \<Rightarrow> callback_outcome" where
  "origin_function allowed origin = Called None (isAllowed allowed origin)"






datatype origin_option = StaticOrigin jsstring | OriginFunction allowed_origins

record cors_options =
  origin :: origin_option
  methods :: "jsstring list"
  allowedHeaders :: "jsstring list"
  maxAge :: nat
  optionsSuccessStatus :: nat

definition cors :: "origin_option \<Rightarrow> cors_options" where
  "cors opt = \<lparr>origin = opt, methods = [lit ''GET'', lit ''POST'', lit ''OPTIONS''],
               allowedHeaders = [lit ''Content-Type''], maxAge = 86400,
               optionsSuccessStatus = 204\<rparr>"

definition createCorsMiddleware :: "jsstring option \<Rightarrow> js_error + cors_options" where
  "createCorsMiddleware raw =
     (if falsy raw \<or> raw = Some (lit ''*'') then Inr (cors (StaticOrigin (lit ''*'')))
      else case raw of
        None \<Rightarrow> Inr (cors (StaticOrigin (lit ''*'')))
      | Some r \<Rightarrow>
          (case parseAllowedOrigins r of
             Inl e \<Rightarrow> Inl e
           | Inr allowed \<Rightarrow> Inr (cors (OriginFunction allowed))))"

text \<open>
  How the \<open>cors\<close> package reads the \<open>origin\<close> option for a request: the string
  \<open>"*"\<close> allows any origin, another string allows that origin only, and a function
  allows the request when it calls back without an error and with a true verdict.
\<close>

definition request_allowed :: "cors_options \<Rightarrow> jsstring option \<Rightarrow> bool" where
  "request_allowed opts req_origin =
     (case origin opts of
        StaticOrigin s \<Rightarrow> s = lit ''*'' \<or> req_origin = Some s
      | OriginFunction allowed \<Rightarrow> origin_function allowed req_origin = Called None True)"

subsection \<open>The policy in the specification's words\<close>

text \<open>
  A token matches an origin when the origin can be cut into pieces, one per character of
  the token: a \<open>*\<close> stands for a piece of any length whose characters all satisfy
  \<open>star_ok\<close>, every other character for itself. With \<open>any_unit\<close> a star stands for
  any sequence; with \<open>no_line_terminator\<close> for any sequence without LF, CR, U+2028 and
  U+2029.
\<close>

definition any_unit :: "code_unit \<Rightarrow> bool" where
  "any_unit c = True"

definition no_line_terminator :: "code_unit \<Rightarrow> bool" where
  "no_line_terminator c = (\<not> line_terminator c)"

fun glob_match :: "(code_unit \<Rightarrow> bool) \<Rightarrow> jsstring \<Rightarrow> jsstring \<Rightarrow> bool" where
  "glob_match star_ok [] s = (s = [])"
| "glob_match star_ok (p # ps) s =
     (if p = STAR
      then list_ex (\<lambda>k. list_all star_ok (take k s) \<and> glob_match star_ok ps (drop k s))
             [0..<Suc (length s)]
      else (case s of [] \<Rightarrow> False | c # cs \<Rightarrow> c = p \<and> glob_match star_ok ps cs))"

definition exact_tokens :: "jsstring \<Rightarrow> jsstring list" where
  "exact_tokens raw = filter (\<lambda>t. STAR \<notin> set t) (tokenize raw)"

definition wildcard_tokens :: "jsstring \<Rightarrow> jsstring list" where
  "wildcard_tokens raw = filter (\<lambda>t. STAR \<in> set t) (tokenize raw)"

subsection \<open>What the compiled pattern of a token is\<close>

text \<open>
  For each character of a token, \<open>source_of\<close> is the text it contributes to the
  pattern source and \<open>term_of\<close> the term it stands for; \<open>compiled\<close> is the
  resulting anchored pattern. \<open>join\<close> is the inverse of splitting.
\<close>

definition source_of :: "code_unit \<Rightarrow> jsstring" where
  "source_of c = (if c = STAR then [DOT, STAR] else if in_escape_class c then [BACKSLASH, c] else [c])"

definition term_of :: "code_unit \<Rightarrow> re_term" where
  "term_of c = (if c = STAR then Star AnyChar else Atom (Literal c))"

definition compiled :: "jsstring \<Rightarrow> regex" where
  "compiled token = AssertStart # map term_of token @ [AssertEnd]"

fun join :: "code_unit \<Rightarrow> jsstring list \<Rightarrow> jsstring" where
  "join sep [] = []"
| "join sep [p] = p"
| "join sep (p # q # ps) = p @ sep # join sep (q # ps)"

text \<open>The policy of the configuration \<open>https://a.com,https://*.b.com\<close>, and the empty one.\<close>

definition example_allowed :: allowed_origins where
  "example_allowed = \<lparr>exact = [lit ''https://a.com''], wildcards = [compiled (lit ''https://*.b.com'')]\<rparr>"

definition no_origins :: allowed_origins where
  "no_origins = \<lparr>exact = [], wildcards = []\<rparr>"

definition single_origin :: allowed_origins where
  "single_origin = \<lparr>exact = [lit ''https://a.com''], wildcards = []\<rparr>"

definition prefix_pattern :: allowed_origins where
  "prefix_pattern = \<lparr>exact = [], wildcards = [compiled (lit ''a*'')]\<rparr>"

definition open_options :: cors_options where
  "open_options = cors (StaticOrigin (lit ''*''))"


definition oversize_token :: jsstring where
  "oversize_token = STAR # replicate 40000 (of_char CHR ''a'')"


section \<open>Error message extraction in the client (the upload page)\<close>

text \<open>
  The body is what \<open>response.json()\<close> parsed, or \<open>null\<close> when parsing failed. Numbers
  are not inspected, so their carrier is left open. An object is its list of properties;
  a property read takes the first entry with the key.
\<close>

datatype 'n json =
    JNull
  | JBool bool
  | JNumber 'n
  | JString jsstring
  | JArray "'n json list"
  | JObject "(jsstring \<times> 'n json) list"

datatype js_type = TUndefined | TObject | TBoolean | TNumber | TString

fun typeof :: "'n json option \<Rightarrow> js_type" where
  "typeof None = TUndefined"
| "typeof (Some JNull) = TObject"
| "typeof (Some (JBool b)) = TBoolean"
| "typeof (Some (JNumber n)) = TNumber"
| "typeof (Some (JString s)) = TString"
| "typeof (Some (JArray vs)) = TObject"
| "typeof (Some (JObject kvs)) = TObject"

text \<open>
  \<open>v?.key\<close> for the keys \<open>error\<close> and \<open>message\<close>: \<open>undefined\<close> on \<open>undefined\<close> and
  \<open>null\<close>, the property on an object, and \<open>undefined\<close> on arrays and primitives, which
  have no property of either name.
\<close>

fun get_prop :: "'n json option \<Rightarrow> jsstring \<Rightarrow> 'n json option" where
  "get_prop (Some (JObject kvs)) key = map_of kvs key"
| "get_prop v key = None"

text \<open>
  \<open>status\<close> is \<open>response.status\<close>, an unsigned 16-bit integer; in a template literal it
  is written in decimal.
\<close>

fun decimal :: "nat \<Rightarrow> jsstring" where
  "decimal n = (if n < 10 then [of_nat (48 + n)] else decimal (n div 10) @ [of_nat (48 + n mod 10)])"

declare decimal.simps [simp del]

definition number_to_string :: "16 word \<Rightarrow> jsstring" where
  "number_to_string status = decimal (unat status)"

definition generic_message :: "16 word \<Rightarrow> jsstring" where
  "generic_message status = lit ''Erreur upload ('' @ number_to_string status @ lit '')''"

text \<open>\<open>as_string v\<close> is the string \<open>v\<close> when \<open>typeof v === "string"\<close>.\<close>

fun as_string :: "'n json option \<Rightarrow> jsstring option" where
  "as_string (Some (JString s)) = Some s"
| "as_string v = None"

definition extractErrorMessage :: "'n json \<Rightarrow> 16 word \<Rightarrow> jsstring" where
  "extractErrorMessage data status =
     (if data \<noteq> JNull \<and> typeof (Some data) = TObject then
        (case as_string (get_prop (Some data) (lit ''error'')) of
           Some s \<Rightarrow> s
         | None \<Rightarrow>
           (case as_string (get_prop (get_prop (Some data) (lit ''error'')) (lit ''message'')) of
              Some s \<Rightarrow> s
            | None \<Rightarrow>
              (case as_string (get_prop (Some data) (lit ''message'')) of
                 Some s \<Rightarrow> s
               | None \<Rightarrow> generic_message status)))
      else generic_message status)"

text \<open>The field a body offers under a path, when that field is a string.\<close>

definition string_field :: "'n json \<Rightarrow> jsstring list \<Rightarrow> jsstring option" where
  "string_field data path =
     (case fold (\<lambda>key v. get_prop v key) path (Some data) of
        Some (JString s) \<Rightarrow> Some s
      | _ \<Rightarrow> None)"

text \<open>A body whose \<open>error\<close> field is an object with a message.\<close>

definition nested_error_body :: "int json" where
  "nested_error_body =
     JObject [(lit ''error'', JObject [(lit ''message'', JString (lit ''quota exceeded''))]),
              (lit ''message'', JString (lit ''other''))]"

section \<open>Properties of the storage client configuration\<close>

lemma assertEnv_missing:
  "falsy (e name) \<Longrightarrow> assertEnv e name = Inl (Error (lit ''Missing env var: '' @ name))"
  by (simp add: assertEnv_def)

lemma assertEnv_present:
  "\<not> falsy (e name) \<Longrightarrow> \<exists>v. e name = Some v \<and> v \<noteq> [] \<and> assertEnv e name = Inr v"
  by (cases "e name") (simp_all add: assertEnv_def falsy_def)

lemma assertEnv_cases:
  "(falsy (e name) \<and> assertEnv e name = Inl (Error (lit ''Missing env var: '' @ name)))
   \<or> (\<not> falsy (e name) \<and> (\<exists>v. assertEnv e name = Inr v))"
  using assertEnv_missing assertEnv_present by metis

lemma var_names_distinct:
  "CLOUDINARY_CLOUD_NAME \<noteq> CLOUDINARY_API_KEY"
  "CLOUDINARY_CLOUD_NAME \<noteq> CLOUDINARY_API_SECRET"
  "CLOUDINARY_API_KEY \<noteq> CLOUDINARY_API_SECRET"
  by (simp_all add: CLOUDINARY_CLOUD_NAME_def CLOUDINARY_API_KEY_def
      CLOUDINARY_API_SECRET_def lit_def)

lemma env_no_key_lookup:
  "env_no_key CLOUDINARY_CLOUD_NAME = Some (lit ''demo'')"
  "env_no_key CLOUDINARY_API_KEY = None"
  "env_no_key CLOUDINARY_API_SECRET = Some (lit ''s3cr3t'')"
  using var_names_distinct by (auto simp add: env_no_key_def)

lemma env_full_lookup:
  "env_full CLOUDINARY_CLOUD_NAME = Some (lit ''demo'')"
  "env_full CLOUDINARY_API_KEY = Some (lit ''12345'')"
  "env_full CLOUDINARY_API_SECRET = Some (lit ''s3cr3t'')"
  using var_names_distinct by (auto simp add: env_full_def)

lemma first_missing_env_no_key: "first_missing env_no_key = Some CLOUDINARY_API_KEY"
  by (simp add: first_missing_def required_vars_def env_no_key_lookup falsy_def lit_def)

lemma all_present_env_full: "all_present env_full"
  by (simp add: all_present_def required_vars_def env_full_lookup falsy_def lit_def)

lemma missing_key_message:
  "lit ''Missing env var: '' @ CLOUDINARY_API_KEY = lit ''Missing env var: CLOUDINARY_API_KEY''"
  by (simp add: CLOUDINARY_API_KEY_def lit_def)

lemma ensureConfigured_throws_state:
  "ensureConfigured e s = (Inl err, s') \<Longrightarrow> s' = s \<and> \<not> configured s"
  by (auto simp add: ensureConfigured_def split: if_splits sum.splits)

lemma ensureConfigured_returns_flag:
  "ensureConfigured e s = (Inr u, s') \<Longrightarrow> configured s'"
  by (auto simp add: ensureConfigured_def split: if_splits sum.splits)

lemma ensureConfigured_first_missing:
  assumes "\<not> configured s" and "first_missing e = Some n"
  shows "ensureConfigured e s = (Inl (Error (lit ''Missing env var: '' @ n)), s)"
proof (cases "falsy (e CLOUDINARY_CLOUD_NAME)")
  case True
  with assms show ?thesis
    by (simp add: first_missing_def required_vars_def ensureConfigured_def assertEnv_missing)
next
  case c1: False
  then obtain cn where cn: "assertEnv e CLOUDINARY_CLOUD_NAME = Inr cn"
    using assertEnv_present by blast
  show ?thesis
  proof (cases "falsy (e CLOUDINARY_API_KEY)")
    case True
    with assms c1 cn show ?thesis
      by (simp add: first_missing_def required_vars_def ensureConfigured_def assertEnv_missing)
  next
    case c2: False
    then obtain k where k: "assertEnv e CLOUDINARY_API_KEY = Inr k"
      using assertEnv_present by blast
    from assms(2) c1 c2 have "n = CLOUDINARY_API_SECRET \<and> falsy (e CLOUDINARY_API_SECRET)"
      by (simp add: first_missing_def required_vars_def split: if_splits)
    with assms(1) cn k show ?thesis
      by (simp add: ensureConfigured_def assertEnv_missing)
  qed
qed

lemma first_missing_exists:
  "(\<exists>n\<in>set required_vars. falsy (e n)) \<Longrightarrow> \<exists>n. first_missing e = Some n"
  by (cases "first_missing e") (auto simp add: first_missing_def find_None_iff)

lemma first_missing_sound:
  "first_missing e = Some n \<Longrightarrow> n \<in> set required_vars \<and> falsy (e n)"
  by (auto simp add: first_missing_def find_Some_iff)

lemma ensureConfigured_all_present:
  assumes "\<not> configured s" and "all_present e"
  shows "\<exists>cn k sec. e CLOUDINARY_CLOUD_NAME = Some cn \<and> e CLOUDINARY_API_KEY = Some k
           \<and> e CLOUDINARY_API_SECRET = Some sec
           \<and> ensureConfigured e s
               = (Inr (), (cloudinary_config cn k sec s)\<lparr>configured := True\<rparr>)"
proof -
  from assms(2) have p: "\<not> falsy (e CLOUDINARY_CLOUD_NAME)" "\<not> falsy (e CLOUDINARY_API_KEY)"
    "\<not> falsy (e CLOUDINARY_API_SECRET)"
    by (simp_all add: all_present_def required_vars_def)
  from p(1) obtain cn where cn: "e CLOUDINARY_CLOUD_NAME = Some cn"
    "assertEnv e CLOUDINARY_CLOUD_NAME = Inr cn" using assertEnv_present by blast
  from p(2) obtain k where k: "e CLOUDINARY_API_KEY = Some k"
    "assertEnv e CLOUDINARY_API_KEY = Inr k" using assertEnv_present by blast
  from p(3) obtain sec where sec: "e CLOUDINARY_API_SECRET = Some sec"
    "assertEnv e CLOUDINARY_API_SECRET = Inr sec" using assertEnv_present by blast
  from assms(1) cn k sec show ?thesis
    by (simp add: ensureConfigured_def)
qed

text \<open>
  C7. When the routine runs its configuration (the flag is not yet set) and one of the
  three credential variables is missing (unset or empty), it throws
  \<open>Error("Missing env var: <name>")\<close> for the first missing variable in source order;
  it has no fallback branch: the SDK settings and the flag are left as they were.
\<close>

theorem ensureConfigured_missing_credential_throws:
  assumes "\<not> configured s" and "\<exists>n\<in>set required_vars. falsy (e n)"
  shows "\<exists>n\<in>set required_vars. falsy (e n) \<and> first_missing e = Some n
           \<and> ensureConfigured e s = (Inl (Error (lit ''Missing env var: '' @ n)), s)"
proof -
  from assms(2) obtain n where n: "first_missing e = Some n"
    using first_missing_exists by blast
  with assms(1) have "ensureConfigured e s = (Inl (Error (lit ''Missing env var: '' @ n)), s)"
    by (rule ensureConfigured_first_missing)
  with n first_missing_sound [OF n] show ?thesis by blast
qed

theorem ensureConfigured_missing_credential_throws_witness:
  "\<not> configured initial_state \<and> CLOUDINARY_API_KEY \<in> set required_vars
   \<and> falsy (env_no_key CLOUDINARY_API_KEY)
   \<and> ensureConfigured env_no_key initial_state
       = (Inl (Error (lit ''Missing env var: CLOUDINARY_API_KEY'')), initial_state)"
proof -
  have h1: "\<not> configured initial_state" by (simp add: initial_state_def)
  have h2: "CLOUDINARY_API_KEY \<in> set required_vars" by (simp add: required_vars_def)
  have h3: "falsy (env_no_key CLOUDINARY_API_KEY)" by (simp add: env_no_key_lookup falsy_def)
  from h2 h3 have h4: "\<exists>n\<in>set required_vars. falsy (env_no_key n)" by blast
  from ensureConfigured_missing_credential_throws [OF h1 h4] first_missing_env_no_key
  have "ensureConfigured env_no_key initial_state
          = (Inl (Error (lit ''Missing env var: '' @ CLOUDINARY_API_KEY)), initial_state)"
    by auto
  then have "ensureConfigured env_no_key initial_state
          = (Inl (Error (lit ''Missing env var: CLOUDINARY_API_KEY'')), initial_state)"
    by (simp add: CLOUDINARY_API_KEY_def lit_def)
  with h1 h2 h3 show ?thesis by blast
qed

text \<open>
  C8. After a call that returned normally, every later call returns normally and leaves
  the module state as it is, whatever the environment holds by then: two calls leave
  the same state as one.
\<close>

theorem ensureConfigured_idempotent:
  assumes "ensureConfigured e s = (Inr (), s')"
  shows "ensureConfigured e' s' = (Inr (), s')"
proof -
  from assms have "configured s'" by (rule ensureConfigured_returns_flag)
  then show ?thesis by (simp add: ensureConfigured_def)
qed

theorem ensureConfigured_idempotent_witness:
  "ensureConfigured env_full initial_state
     = (Inr (), (cloudinary_config (lit ''demo'') (lit ''12345'') (lit ''s3cr3t'') initial_state)
                  \<lparr>configured := True\<rparr>)
   \<and> ensureConfigured env_no_key
        ((cloudinary_config (lit ''demo'') (lit ''12345'') (lit ''s3cr3t'') initial_state)
           \<lparr>configured := True\<rparr>)
     = (Inr (), (cloudinary_config (lit ''demo'') (lit ''12345'') (lit ''s3cr3t'') initial_state)
                  \<lparr>configured := True\<rparr>)"
proof -
  have h: "ensureConfigured env_full initial_state
     = (Inr (), (cloudinary_config (lit ''demo'') (lit ''12345'') (lit ''s3cr3t'') initial_state)
                  \<lparr>configured := True\<rparr>)"
    by (simp add: ensureConfigured_def initial_state_def assertEnv_def env_full_lookup
        falsy_def lit_def)
  from h ensureConfigured_idempotent [OF h, of env_no_key] show ?thesis by simp
qed

text \<open>
  C9. If the routine throws, the flag is still false and the module state is unchanged;
  a later call under an environment that holds all three variables then performs the
  configuration with that environment's values and sets the flag.
\<close>

theorem ensureConfigured_atomic_on_failure:
  assumes "ensureConfigured e s = (Inl err, s')" and "all_present e2"
  shows "\<not> configured s' \<and> s' = s
         \<and> (\<exists>cn k sec. e2 CLOUDINARY_CLOUD_NAME = Some cn \<and> e2 CLOUDINARY_API_KEY = Some k
               \<and> e2 CLOUDINARY_API_SECRET = Some sec
               \<and> ensureConfigured e2 s'
                   = (Inr (), (cloudinary_config cn k sec s')\<lparr>configured := True\<rparr>))"
proof -
  from assms(1) have u: "s' = s" "\<not> configured s"
    using ensureConfigured_throws_state by blast+
  then have "\<not> configured s'" by simp
  from ensureConfigured_all_present [OF this assms(2)] u show ?thesis by simp
qed

theorem ensureConfigured_atomic_on_failure_witness:
  "ensureConfigured env_no_key initial_state
     = (Inl (Error (lit ''Missing env var: CLOUDINARY_API_KEY'')), initial_state)
   \<and> all_present env_full
   \<and> \<not> configured initial_state
   \<and> ensureConfigured env_full initial_state
       = (Inr (), (cloudinary_config (lit ''demo'') (lit ''12345'') (lit ''s3cr3t'') initial_state)
                    \<lparr>configured := True\<rparr>)"
proof -
  have h1: "ensureConfigured env_no_key initial_state
     = (Inl (Error (lit ''Missing env var: CLOUDINARY_API_KEY'')), initial_state)"
    by (simp add: ensureConfigured_def initial_state_def assertEnv_def env_no_key_lookup
        falsy_def missing_key_message) (simp add: lit_def)
  from ensureConfigured_atomic_on_failure [OF h1 all_present_env_full] h1 all_present_env_full
  show ?thesis by (auto simp add: env_full_lookup)
qed

section \<open>Properties of the origin policy\<close>

subsection \<open>The pattern compiled from a token\<close>

lemmas unit_defs = BACKSLASH_def STAR_def DOT_def CARET_def DOLLAR_def COMMA_def lit_def

lemma escape_class_syntax: "in_escape_class c = syntax_character c"
  by (auto simp add: in_escape_class_def syntax_character_def lit_def)

lemma in_escape_class_units:
  "in_escape_class STAR" "in_escape_class DOT" "in_escape_class BACKSLASH"
  "in_escape_class CARET" "in_escape_class DOLLAR"
  by (simp_all add: in_escape_class_def unit_defs)

lemma units_distinct:
  "DOT \<noteq> STAR" "BACKSLASH \<noteq> STAR" "DOT \<noteq> CARET" "DOT \<noteq> DOLLAR" "DOT \<noteq> BACKSLASH"
  "BACKSLASH \<noteq> CARET" "BACKSLASH \<noteq> DOLLAR" "DOLLAR \<noteq> STAR" "DOLLAR \<noteq> CARET"
  "STAR \<noteq> CARET"
  by (simp_all add: unit_defs)

lemma plain_not_unit:
  "\<not> in_escape_class c \<Longrightarrow> c \<noteq> STAR \<and> c \<noteq> DOT \<and> c \<noteq> BACKSLASH \<and> c \<noteq> CARET \<and> c \<noteq> DOLLAR"
  using in_escape_class_units by auto

lemma escapeRegExp_head: "escapeRegExp cs = e # es \<Longrightarrow> e \<noteq> STAR"
  by (cases cs) (auto simp add: units_distinct dest: plain_not_unit split: if_splits)

lemma replace_escaped_star_Cons:
  "(\<And>e es'. es = e # es' \<Longrightarrow> e \<noteq> STAR) \<Longrightarrow>
   replace_escaped_star (c # es) = c # replace_escaped_star es"
  by (cases es) simp_all

lemma replace_escape_step:
  "replace_escaped_star (escapeRegExp (c # cs)) = source_of c @ replace_escaped_star (escapeRegExp cs)"
proof -
  have step: "\<And>x. replace_escaped_star (x # escapeRegExp cs) = x # replace_escaped_star (escapeRegExp cs)"
    by (rule replace_escaped_star_Cons) (rule escapeRegExp_head)
  show ?thesis
  proof (cases "c = STAR")
    case True
    then show ?thesis by (simp add: source_of_def in_escape_class_units)
  next
    case False
    then show ?thesis by (simp add: source_of_def step)
  qed
qed

lemma replace_escape_concat:
  "replace_escaped_star (escapeRegExp t) = concat (map source_of t)"
  by (induction t) (simp, simp only: replace_escape_step, simp)

lemma source_of_head: "source_of c @ rest = e # es \<Longrightarrow> e \<noteq> STAR"
  by (auto simp add: source_of_def units_distinct dest: plain_not_unit split: if_splits)

lemma body_head: "concat (map source_of t) @ [DOLLAR] = e # es \<Longrightarrow> e \<noteq> STAR"
  by (cases t) (auto simp add: units_distinct dest: source_of_head)

lemma quantified_plain:
  "(\<And>e es. rest = e # es \<Longrightarrow> e \<noteq> STAR) \<Longrightarrow> quantified a rest = (Atom a, rest)"
  by (cases rest) (simp_all add: quantified_def)

lemma parse_source_of:
  assumes "\<And>e es. rest = e # es \<Longrightarrow> e \<noteq> STAR"
  shows "parse_pattern (source_of c @ rest) = cons_term (term_of c) (parse_pattern rest)"
proof (cases "c = STAR")
  case True
  then show ?thesis
    by (simp add: source_of_def term_of_def units_distinct quantified_def)
next
  case ns: False
  show ?thesis
  proof (cases "in_escape_class c")
    case True
    with ns assms show ?thesis
      by (simp add: source_of_def term_of_def units_distinct quantified_plain
          escape_class_syntax [symmetric])
  next
    case False
    with ns assms plain_not_unit [OF False] show ?thesis
      by (simp add: source_of_def term_of_def quantified_plain escape_class_syntax [symmetric])
  qed
qed

lemma parse_body:
  "parse_pattern (concat (map source_of t) @ [DOLLAR]) = Inr (map term_of t @ [AssertEnd])"
proof (induction t)
  case Nil
  show ?case by (simp add: units_distinct cons_term_def)
next
  case (Cons c t)
  have "parse_pattern (source_of c @ (concat (map source_of t) @ [DOLLAR]))
          = cons_term (term_of c) (parse_pattern (concat (map source_of t) @ [DOLLAR]))"
    by (rule parse_source_of) (rule body_head)
  with Cons show ?case by (simp add: cons_term_def)
qed

lemma toWildcardRegExp_compiled: "toWildcardRegExp token = Inr (compiled token)"
  by (simp add: toWildcardRegExp_def replace_escape_concat parse_body cons_term_def compiled_def)

subsection \<open>Matching against a compiled pattern\<close>

lemma search_not_at_start: "search (AssertStart # ts) False s = False"
  by (induction s) simp_all

lemma test_anchored: "test (AssertStart # ts) s = matches ts True s"
  by (cases s) (simp_all add: test_def search_not_at_start)

lemma star_any_matches:
  assumes "\<And>b u. matches rest b u = G u"
  shows "matches (Star AnyChar # rest) b s
           = (\<exists>k\<le>length s. list_all no_line_terminator (take k s) \<and> G (drop k s))"
proof (induction s arbitrary: b)
  case Nil
  show ?case by (simp add: assms)
next
  case (Cons c cs)
  have split: "(\<exists>k\<le>length (c # cs). list_all no_line_terminator (take k (c # cs))
                  \<and> G (drop k (c # cs)))
          = (G (c # cs) \<or> (no_line_terminator c \<and> (\<exists>k\<le>length cs.
                list_all no_line_terminator (take k cs) \<and> G (drop k cs))))"
    (is "?L = ?R")
  proof
    assume ?L
    then obtain k where k: "k \<le> length (c # cs)"
      "list_all no_line_terminator (take k (c # cs))" "G (drop k (c # cs))" by blast
    show ?R
    proof (cases k)
      case 0
      with k show ?thesis by simp
    next
      case (Suc j)
      with k have "j \<le> length cs" "no_line_terminator c"
        "list_all no_line_terminator (take j cs)" "G (drop j cs)" by simp_all
      then show ?thesis by blast
    qed
  next
    assume ?R
    then show ?L
    proof
      assume "G (c # cs)"
      then have "0 \<le> length (c # cs) \<and> list_all no_line_terminator (take 0 (c # cs))
                   \<and> G (drop 0 (c # cs))" by simp
      then show ?L by blast
    next
      assume "no_line_terminator c \<and> (\<exists>k\<le>length cs.
                list_all no_line_terminator (take k cs) \<and> G (drop k cs))"
      then obtain k where "k \<le> length cs" "no_line_terminator c"
        "list_all no_line_terminator (take k cs)" "G (drop k cs)" by blast
      then have "Suc k \<le> length (c # cs) \<and> list_all no_line_terminator (take (Suc k) (c # cs))
                   \<and> G (drop (Suc k) (c # cs))" by simp
      then show ?L by blast
    qed
  qed
  have "matches (Star AnyChar # rest) b (c # cs)
          = ((no_line_terminator c \<and> matches (Star AnyChar # rest) False cs)
             \<or> matches rest b (c # cs))"
    by (simp add: no_line_terminator_def)
  also have "\<dots> = ((no_line_terminator c \<and> (\<exists>k\<le>length cs.
                list_all no_line_terminator (take k cs) \<and> G (drop k cs))) \<or> G (c # cs))"
    by (simp only: Cons.IH assms)
  also have "\<dots> = (\<exists>k\<le>length (c # cs). list_all no_line_terminator (take k (c # cs))
                  \<and> G (drop k (c # cs)))"
    using split by blast
  finally show ?case .
qed

lemma list_ex_upto: "list_ex P [0..<Suc n] = (\<exists>k\<le>n. P k)"
  unfolding list_ex_iff set_upt Bex_def atLeastLessThan_iff
  by (simp add: less_Suc_eq_le)

lemma glob_match_star:
  "glob_match star_ok (STAR # ps) s
     = (\<exists>k\<le>length s. list_all star_ok (take k s) \<and> glob_match star_ok ps (drop k s))"
  by (simp only: glob_match.simps list_ex_upto simp_thms if_True)

lemma glob_match_literal:
  "p \<noteq> STAR \<Longrightarrow> glob_match star_ok (p # ps) s
     = (case s of [] \<Rightarrow> False | c # cs \<Rightarrow> c = p \<and> glob_match star_ok ps cs)"
  by (simp only: glob_match.simps if_False)

lemma matches_glob:
  "matches (map term_of t @ [AssertEnd]) b s = glob_match no_line_terminator t s"
proof (induction t arbitrary: b s)
  case Nil
  show ?case by simp
next
  case (Cons p ps)
  show ?case
  proof (cases "p = STAR")
    case True
    have "matches (Star AnyChar # (map term_of ps @ [AssertEnd])) b s
            = (\<exists>k\<le>length s. list_all no_line_terminator (take k s)
                 \<and> glob_match no_line_terminator ps (drop k s))"
      by (rule star_any_matches) (rule Cons.IH)
    moreover have "matches (map term_of (p # ps) @ [AssertEnd]) b s
            = matches (Star AnyChar # (map term_of ps @ [AssertEnd])) b s"
      using True by (simp add: term_of_def)
    ultimately show ?thesis using True by (simp only: glob_match_star)
  next
    case False
    then have "term_of p = Atom (Literal p)" by (simp add: term_of_def)
    with False show ?thesis by (cases s) (simp_all add: glob_match_literal Cons.IH)
  qed
qed

lemma test_compiled: "test (compiled t) s = glob_match no_line_terminator t s"
  by (simp add: compiled_def test_anchored matches_glob)

lemma split_on_nonempty: "split_on sep s \<noteq> []"
  by (induction s) (auto split: list.splits)

lemma split_on_join: "join sep (split_on sep s) = s"
proof (induction s)
  case Nil
  show ?case by simp
next
  case (Cons c cs)
  obtain p ps where ps: "split_on sep cs = p # ps"
    using split_on_nonempty [of sep cs] by (cases "split_on sep cs") auto
  with Cons show ?case by (cases ps) auto
qed

lemma split_on_no_separator: "p \<in> set (split_on sep s) \<Longrightarrow> sep \<notin> set p"
  by (induction s arbitrary: p) (auto split: if_splits list.splits)

lemma js_trim_suffix:
  "dropWhile is_js_space s
     = js_trim s @ rev (takeWhile is_js_space (rev (dropWhile is_js_space s)))"
proof -
  let ?m = "dropWhile is_js_space s"
  have "rev (rev ?m) = rev (takeWhile is_js_space (rev ?m) @ dropWhile is_js_space (rev ?m))"
    by (simp only: takeWhile_dropWhile_id)
  then show ?thesis by (simp only: rev_rev_ident rev_append js_trim_def)
qed

lemma js_trim_decomposition:
  "\<exists>pre post. s = pre @ js_trim s @ post \<and> list_all is_js_space pre \<and> list_all is_js_space post"
proof -
  let ?a = "takeWhile is_js_space s"
  let ?m = "dropWhile is_js_space s"
  let ?b = "rev (takeWhile is_js_space (rev ?m))"
  have "s = ?a @ ?m" by simp
  also have "?m = js_trim s @ ?b" by (rule js_trim_suffix)
  finally have 1: "s = ?a @ js_trim s @ ?b" .
  have 3: "list_all is_js_space ?a" by (auto simp add: list_all_iff dest: set_takeWhileD)
  have 4: "list_all is_js_space ?b" by (auto simp add: list_all_iff dest: set_takeWhileD)
  from 1 3 4 show ?thesis by blast
qed

lemma js_trim_ends:
  assumes ne: "js_trim s \<noteq> []"
  shows "\<not> is_js_space (hd (js_trim s)) \<and> \<not> is_js_space (last (js_trim s))"
proof -
  let ?m = "dropWhile is_js_space s"
  let ?r = "dropWhile is_js_space (rev ?m)"
  from ne have r: "?r \<noteq> []" by (simp add: js_trim_def)
  then have l: "\<not> is_js_space (hd ?r)" by (rule hd_dropWhile)
  have "last (js_trim s) = hd ?r" using r by (simp add: js_trim_def last_rev)
  with l have A: "\<not> is_js_space (last (js_trim s))" by simp
  have m: "?m \<noteq> []"
  proof
    assume a: "?m = []"
    have "?r = dropWhile is_js_space (rev [])" by (simp only: a)
    then have "?r = []" by simp
    with r show False ..
  qed
  then have hm: "\<not> is_js_space (hd ?m)" by (rule hd_dropWhile)
  have "hd ?m = hd (js_trim s @ rev (takeWhile is_js_space (rev ?m)))"
    using js_trim_suffix [of s] by simp
  also have "\<dots> = hd (js_trim s)" using ne by simp
  finally have "hd ?m = hd (js_trim s)" .
  with hm A show ?thesis by simp
qed

subsection \<open>Parsing and deciding\<close>

lemma set_fold_set_add: "set (fold set_add ts e) = set e \<union> set ts"
  by (induction ts arbitrary: e) (auto simp add: set_add_def)

lemma add_tokens_result:
  "add_tokens ts a
     = Inr \<lparr>exact = fold set_add (filter (\<lambda>t. STAR \<notin> set t) ts) (exact a),
            wildcards = wildcards a @ map compiled (filter (\<lambda>t. STAR \<in> set t) ts)\<rparr>"
  by (induction ts arbitrary: a) (simp_all add: toWildcardRegExp_compiled)

lemma parseAllowedOrigins_result:
  "parseAllowedOrigins raw
     = Inr \<lparr>exact = fold set_add (exact_tokens raw) [],
            wildcards = map compiled (wildcard_tokens raw)\<rparr>"
  by (simp add: parseAllowedOrigins_def add_tokens_result exact_tokens_def wildcard_tokens_def)

lemma isAllowed_iff:
  "isAllowed allowed requestOrigin
     = (requestOrigin = None \<or> requestOrigin = Some []
        \<or> (\<exists>s. requestOrigin = Some s
              \<and> (s \<in> set (exact allowed) \<or> (\<exists>re\<in>set (wildcards allowed). test re s))))"
  by (cases requestOrigin) (auto simp add: isAllowed_def falsy_def list_ex_iff)

lemma tokenize_example:
  "tokenize (lit ''https://a.com,https://*.b.com'') = [lit ''https://a.com'', lit ''https://*.b.com'']"
  by (simp add: tokenize_def js_trim_def is_js_space_def unit_defs)

lemma parse_example:
  "parseAllowedOrigins (lit ''https://a.com,https://*.b.com'') = Inr example_allowed"
  by (simp add: parseAllowedOrigins_result exact_tokens_def wildcard_tokens_def tokenize_example
      example_allowed_def set_add_def) (simp add: unit_defs)

lemma example_decisions:
  "isAllowed example_allowed (Some (lit ''https://a.com''))"
  "isAllowed example_allowed (Some (lit ''https://x.b.com''))"
  "\<not> isAllowed example_allowed (Some (lit ''https://a.com.evil.com''))"
  "\<not> isAllowed example_allowed (Some (lit ''http://a.com''))"
  by (simp_all add: isAllowed_def example_allowed_def compiled_def term_of_def falsy_def
      test_def line_terminator_def unit_defs)

lemma tokenize_commas: "tokenize (lit '',,'') = []"
  by (simp add: tokenize_def js_trim_def is_js_space_def unit_defs)

lemma tokenize_blank: "tokenize (lit '' , '') = []"
  by (simp add: tokenize_def js_trim_def is_js_space_def unit_defs)



lemma createCorsMiddleware_restricted:
  assumes "raw \<noteq> []" and "raw \<noteq> lit ''*''"
  shows "createCorsMiddleware (Some raw)
           = Inr (cors (OriginFunction \<lparr>exact = fold set_add (exact_tokens raw) [],
                                         wildcards = map compiled (wildcard_tokens raw)\<rparr>))"
  using assms by (simp add: createCorsMiddleware_def falsy_def parseAllowedOrigins_result)

lemma request_allowed_function:
  "request_allowed (cors (OriginFunction allowed)) requestOrigin = isAllowed allowed requestOrigin"
  by (simp add: request_allowed_def cors_def origin_function_def)

lemma wildcard_test_glob:
  "(\<exists>re\<in>set (map compiled ts). test re s) = (\<exists>t\<in>set ts. glob_match no_line_terminator t s)"
  by (simp add: test_compiled)

text \<open>
  C1 (amended). For a configuration string that is neither empty nor \<open>*\<close>, the
  middleware decides with \<open>isAllowed\<close> on the parsed configuration, and the decision
  allows exactly when the Origin value is absent or the empty string, or is a member of
  the exact-match set, or is accepted by \<open>test\<close> of one of the compiled patterns;
  in terms of the tokens: when it is one of the star-free tokens, or matches one of the
  tokens with a star as a whole. A request without an Origin header is allowed.
\<close>

theorem isAllowed_decision:
  assumes "raw \<noteq> []" and "raw \<noteq> lit ''*''"
  shows "\<exists>allowed. createCorsMiddleware (Some raw) = Inr (cors (OriginFunction allowed))
           \<and> parseAllowedOrigins raw = Inr allowed
           \<and> request_allowed (cors (OriginFunction allowed)) requestOrigin
               = isAllowed allowed requestOrigin
           \<and> isAllowed allowed requestOrigin
               = (requestOrigin = None \<or> requestOrigin = Some []
                  \<or> (\<exists>s. requestOrigin = Some s
                        \<and> (s \<in> set (exact allowed)
                             \<or> (\<exists>re\<in>set (wildcards allowed). test re s))))
           \<and> isAllowed allowed requestOrigin
               = (requestOrigin = None \<or> requestOrigin = Some []
                  \<or> (\<exists>s. requestOrigin = Some s
                        \<and> (s \<in> set (exact_tokens raw)
                             \<or> (\<exists>t\<in>set (wildcard_tokens raw).
                                    glob_match no_line_terminator t s))))
           \<and> isAllowed allowed None"
proof -
  let ?a = "\<lparr>exact = fold set_add (exact_tokens raw) [],
              wildcards = map compiled (wildcard_tokens raw)\<rparr>"
  have p: "parseAllowedOrigins raw = Inr ?a" by (rule parseAllowedOrigins_result)
  have c: "createCorsMiddleware (Some raw) = Inr (cors (OriginFunction ?a))"
    using assms by (rule createCorsMiddleware_restricted)
  have r: "request_allowed (cors (OriginFunction ?a)) requestOrigin = isAllowed ?a requestOrigin"
    by (rule request_allowed_function)
  have d: "isAllowed ?a requestOrigin
             = (requestOrigin = None \<or> requestOrigin = Some []
                \<or> (\<exists>s. requestOrigin = Some s
                      \<and> (s \<in> set (exact ?a) \<or> (\<exists>re\<in>set (wildcards ?a). test re s))))"
    by (rule isAllowed_iff)
  have t: "isAllowed ?a requestOrigin
             = (requestOrigin = None \<or> requestOrigin = Some []
                \<or> (\<exists>s. requestOrigin = Some s
                      \<and> (s \<in> set (exact_tokens raw)
                           \<or> (\<exists>t\<in>set (wildcard_tokens raw).
                                  glob_match no_line_terminator t s))))"
    unfolding isAllowed_iff [of ?a requestOrigin]
    by (simp add: set_fold_set_add test_compiled)
  have n: "isAllowed ?a None" by (simp add: isAllowed_def falsy_def)
  from p c r d t n show ?thesis by blast
qed

lemma tokenize_single: "tokenize (lit ''https://a.com'') = [lit ''https://a.com'']"
  by (simp add: tokenize_def js_trim_def is_js_space_def unit_defs)

lemma parse_single: "parseAllowedOrigins (lit ''https://a.com'') = Inr single_origin"
  by (simp add: parseAllowedOrigins_result exact_tokens_def wildcard_tokens_def tokenize_single
      single_origin_def set_add_def) (simp add: unit_defs)

lemma example_tokens:
  "exact_tokens (lit ''https://a.com,https://*.b.com'') = [lit ''https://a.com'']"
  "wildcard_tokens (lit ''https://a.com,https://*.b.com'') = [lit ''https://*.b.com'']"
  by (simp_all add: exact_tokens_def wildcard_tokens_def tokenize_example) (simp_all add: unit_defs)

theorem isAllowed_decision_witness:
  "lit ''https://a.com,https://*.b.com'' \<noteq> [] \<and> lit ''https://a.com,https://*.b.com'' \<noteq> lit ''*''
   \<and> parseAllowedOrigins (lit ''https://a.com,https://*.b.com'') = Inr example_allowed
   \<and> isAllowed example_allowed (Some (lit ''https://x.b.com''))
   \<and> glob_match no_line_terminator (lit ''https://*.b.com'') (lit ''https://x.b.com'')"
proof -
  let ?raw = "lit ''https://a.com,https://*.b.com''"
  have h1: "?raw \<noteq> []" by (simp add: lit_def)
  have h2: "?raw \<noteq> lit ''*''" by (simp add: lit_def)
  have ne: "lit ''https://x.b.com'' \<noteq> lit ''https://a.com''" by (simp add: lit_def)
  from isAllowed_decision [OF h1 h2, of "Some (lit ''https://x.b.com'')"]
  obtain allowed where a: "parseAllowedOrigins ?raw = Inr allowed"
    and t: "isAllowed allowed (Some (lit ''https://x.b.com''))
          = (Some (lit ''https://x.b.com'') = None \<or> Some (lit ''https://x.b.com'') = Some []
             \<or> (\<exists>s. Some (lit ''https://x.b.com'') = Some s
                   \<and> (s \<in> set (exact_tokens ?raw)
                        \<or> (\<exists>t\<in>set (wildcard_tokens ?raw).
                               glob_match no_line_terminator t s))))"
    by blast
  from a parse_example have "allowed = example_allowed" by simp
  with t have "isAllowed example_allowed (Some (lit ''https://x.b.com''))
          = (lit ''https://x.b.com'' = [] \<or> lit ''https://x.b.com'' \<in> set (exact_tokens ?raw)
             \<or> (\<exists>t\<in>set (wildcard_tokens ?raw).
                    glob_match no_line_terminator t (lit ''https://x.b.com'')))"
    by simp
  with example_decisions(2) ne
  have "glob_match no_line_terminator (lit ''https://*.b.com'') (lit ''https://x.b.com'')"
    by (simp add: example_tokens) (simp add: lit_def)
  with h1 h2 parse_example example_decisions(2) show ?thesis by simp
qed

theorem isAllowed_empty_origin_counterexample:
  "parseAllowedOrigins (lit ''https://a.com'') = Inr single_origin
   \<and> isAllowed single_origin (Some [])
   \<and> Some [] \<noteq> (None :: jsstring option)
   \<and> [] \<notin> set (exact single_origin)
   \<and> wildcards single_origin = []"
  by (simp add: parse_single isAllowed_def falsy_def) (simp add: single_origin_def lit_def)

subsection \<open>The open policy, the example configuration, the origin function\<close>

lemma request_allowed_open: "request_allowed open_options requestOrigin"
  by (simp add: request_allowed_def open_options_def cors_def)

text \<open>
  C2. When the configuration value is unset, empty or the literal \<open>*\<close>, the middleware
  is built with the static origin \<open>*\<close>, under which every request is allowed whatever
  its Origin.
\<close>

theorem createCorsMiddleware_open_policy:
  assumes "raw = None \<or> raw = Some [] \<or> raw = Some (lit ''*'')"
  shows "createCorsMiddleware raw = Inr open_options \<and> origin open_options = StaticOrigin (lit ''*'')
         \<and> request_allowed open_options requestOrigin"
  using assms request_allowed_open
  by (auto simp add: createCorsMiddleware_def falsy_def open_options_def cors_def)

theorem createCorsMiddleware_open_policy_witness:
  "createCorsMiddleware None = Inr open_options
   \<and> request_allowed open_options (Some (lit ''https://a.com.evil.com''))
   \<and> createCorsMiddleware (Some (lit ''*'')) = Inr open_options
   \<and> request_allowed open_options None"
proof -
  have h1: "None = None \<or> None = Some [] \<or> None = Some (lit ''*'')" by simp
  have h2: "Some (lit ''*'') = None \<or> Some (lit ''*'') = Some [] \<or> Some (lit ''*'') = Some (lit ''*'')"
    by simp
  from createCorsMiddleware_open_policy [OF h1, of "Some (lit ''https://a.com.evil.com'')"]
    createCorsMiddleware_open_policy [OF h2, of None]
  show ?thesis by simp
qed

lemma example_nonopen:
  "lit ''https://a.com,https://*.b.com'' \<noteq> []"
  "lit ''https://a.com,https://*.b.com'' \<noteq> lit ''*''"
  by (simp_all add: lit_def)

lemma create_example:
  "createCorsMiddleware (Some (lit ''https://a.com,https://*.b.com''))
     = Inr (cors (OriginFunction example_allowed))"
  using example_nonopen by (simp add: createCorsMiddleware_def falsy_def parse_example)

text \<open>
  C4. Under the configuration \<open>https://a.com,https://*.b.com\<close> the origins
  \<open>https://a.com\<close> and \<open>https://x.b.com\<close> are allowed, and
  \<open>https://a.com.evil.com\<close> and \<open>http://a.com\<close> are denied.
\<close>

theorem example_configuration_decisions:
  "createCorsMiddleware (Some (lit ''https://a.com,https://*.b.com''))
     = Inr (cors (OriginFunction example_allowed))
   \<and> request_allowed (cors (OriginFunction example_allowed)) (Some (lit ''https://a.com''))
   \<and> request_allowed (cors (OriginFunction example_allowed)) (Some (lit ''https://x.b.com''))
   \<and> \<not> request_allowed (cors (OriginFunction example_allowed)) (Some (lit ''https://a.com.evil.com''))
   \<and> \<not> request_allowed (cors (OriginFunction example_allowed)) (Some (lit ''http://a.com''))"
  by (simp add: create_example request_allowed_function example_decisions)

subsection \<open>Configurations without any token\<close>

lemma tokenize_empty_iff:
  "(tokenize raw = []) = (\<forall>p\<in>set (split_on COMMA raw). js_trim p = [])"
  by (auto simp add: tokenize_def filter_empty_conv)

lemma isAllowed_no_origins:
  "isAllowed no_origins requestOrigin = (requestOrigin = None \<or> requestOrigin = Some [])"
  by (cases requestOrigin) (simp_all add: isAllowed_def falsy_def no_origins_def)

text \<open>
  C10 (amended). A configuration string that is neither empty nor \<open>*\<close> and whose
  comma-separated pieces are all empty after trimming does not give the open policy: the
  exact-match set and the pattern list are empty, and a request is allowed exactly when
  its Origin value is absent or the empty string, so every request with a non-empty
  Origin is denied.
\<close>

theorem blank_configuration_policy:
  assumes "raw \<noteq> []" and "raw \<noteq> lit ''*''"
    and "\<forall>p\<in>set (split_on COMMA raw). js_trim p = []"
  shows "createCorsMiddleware (Some raw) = Inr (cors (OriginFunction no_origins))
         \<and> parseAllowedOrigins raw = Inr no_origins
         \<and> exact no_origins = [] \<and> wildcards no_origins = []
         \<and> request_allowed (cors (OriginFunction no_origins)) requestOrigin
             = (requestOrigin = None \<or> requestOrigin = Some [])"
proof -
  from assms(3) have t: "tokenize raw = []" by (simp add: tokenize_empty_iff)
  then have p: "parseAllowedOrigins raw = Inr no_origins"
    by (simp add: parseAllowedOrigins_result exact_tokens_def wildcard_tokens_def no_origins_def)
  with assms(1,2) have c: "createCorsMiddleware (Some raw) = Inr (cors (OriginFunction no_origins))"
    by (simp add: createCorsMiddleware_def falsy_def)
  from p c show ?thesis
    by (simp add: request_allowed_function isAllowed_no_origins) (simp add: no_origins_def)
qed

lemma commas_pieces: "split_on COMMA (lit '',,'') = [[], [], []]"
  by (simp add: unit_defs)

lemma blank_pieces: "split_on COMMA (lit '' , '') = [lit '' '', lit '' '']"
  by (simp add: unit_defs)

lemma js_trim_blank: "js_trim [] = []" "js_trim (lit '' '') = []"
  by (simp_all add: js_trim_def is_js_space_def lit_def)

theorem blank_configuration_policy_witness:
  "lit '',,'' \<noteq> [] \<and> lit '',,'' \<noteq> lit ''*''
   \<and> createCorsMiddleware (Some (lit '',,'')) = Inr (cors (OriginFunction no_origins))
   \<and> \<not> request_allowed (cors (OriginFunction no_origins)) (Some (lit ''https://a.com''))
   \<and> lit '' , '' \<noteq> [] \<and> lit '' , '' \<noteq> lit ''*''
   \<and> createCorsMiddleware (Some (lit '' , '')) = Inr (cors (OriginFunction no_origins))
   \<and> request_allowed (cors (OriginFunction no_origins)) None"
proof -
  have a1: "lit '',,'' \<noteq> []" and a2: "lit '',,'' \<noteq> lit ''*''" by (simp_all add: lit_def)
  have a3: "\<forall>p\<in>set (split_on COMMA (lit '',,'')). js_trim p = []"
    by (simp add: commas_pieces js_trim_blank)
  have b1: "lit '' , '' \<noteq> []" and b2: "lit '' , '' \<noteq> lit ''*''" by (simp_all add: lit_def)
  have b3: "\<forall>p\<in>set (split_on COMMA (lit '' , '')). js_trim p = []"
    by (simp add: blank_pieces js_trim_blank)
  have ne: "lit ''https://a.com'' \<noteq> []" by (simp add: lit_def)
  from blank_configuration_policy [OF a1 a2 a3, of "Some (lit ''https://a.com'')"] ne
  have 1: "createCorsMiddleware (Some (lit '',,'')) = Inr (cors (OriginFunction no_origins))
           \<and> \<not> request_allowed (cors (OriginFunction no_origins)) (Some (lit ''https://a.com''))"
    by simp
  from blank_configuration_policy [OF b1 b2 b3, of None]
  have 2: "createCorsMiddleware (Some (lit '' , '')) = Inr (cors (OriginFunction no_origins))
           \<and> request_allowed (cors (OriginFunction no_origins)) None"
    by simp
  from a1 a2 b1 b2 1 2 show ?thesis by simp
qed

theorem blank_configuration_empty_origin_counterexample:
  "lit '',,'' \<noteq> [] \<and> lit '',,'' \<noteq> lit ''*''
   \<and> tokenize (lit '',,'') = []
   \<and> createCorsMiddleware (Some (lit '',,'')) = Inr (cors (OriginFunction no_origins))
   \<and> request_allowed (cors (OriginFunction no_origins)) (Some [])"
proof -
  have a1: "lit '',,'' \<noteq> []" and a2: "lit '',,'' \<noteq> lit ''*''" by (simp_all add: lit_def)
  have p: "parseAllowedOrigins (lit '',,'') = Inr no_origins"
    by (simp add: parseAllowedOrigins_result exact_tokens_def wildcard_tokens_def
        tokenize_commas no_origins_def)
  with a1 a2 have c: "createCorsMiddleware (Some (lit '',,'')) = Inr (cors (OriginFunction no_origins))"
    by (simp add: createCorsMiddleware_def falsy_def)
  from a1 a2 c tokenize_commas show ?thesis
    by (simp add: request_allowed_function isAllowed_no_origins)
qed

section \<open>Properties of the error message extraction\<close>

lemma string_field_as_string:
  "string_field data path = as_string (fold (\<lambda>key v. get_prop v key) path (Some data))"
  by (cases "fold (\<lambda>key v. get_prop v key) path (Some data)" rule: as_string.cases)
    (simp_all add: string_field_def)

lemma string_field_top: "string_field data [k] = as_string (get_prop (Some data) k)"
  by (simp add: string_field_as_string)

lemma string_field_nested:
  "string_field data [k, l] = as_string (get_prop (get_prop (Some data) k) l)"
  by (simp add: string_field_as_string)

lemma get_prop_non_object:
  "\<not> (data \<noteq> JNull \<and> typeof (Some data) = TObject) \<Longrightarrow> get_prop (Some data) k = None"
  by (cases data) simp_all

lemma generic_message_text:
  "generic_message status = lit ''Erreur upload ('' @ decimal (unat status) @ lit '')''"
  by (simp add: generic_message_def number_to_string_def)

text \<open>
  C6 (amended). The message extracted from a response body is, in this order of
  priority, the top-level \<open>error\<close> field when it is a string, else the nested
  \<open>error.message\<close> field when it is a string, else the top-level \<open>message\<close>
  field when it is a string; when none of the three is a string, a non-object or null
  body included, it is \<open>Erreur upload (<status>)\<close> with the status in decimal.
\<close>

theorem extractErrorMessage_priority:
  "extractErrorMessage data status =
     (case string_field data [lit ''error''] of
        Some s \<Rightarrow> s
      | None \<Rightarrow>
        (case string_field data [lit ''error'', lit ''message''] of
           Some s \<Rightarrow> s
         | None \<Rightarrow>
           (case string_field data [lit ''message''] of
              Some s \<Rightarrow> s
            | None \<Rightarrow> lit ''Erreur upload ('' @ decimal (unat status) @ lit '')'')))"
proof (cases "data \<noteq> JNull \<and> typeof (Some data) = TObject")
  case True
  then show ?thesis
    unfolding extractErrorMessage_def string_field_top string_field_nested generic_message_text
    by simp
next
  case False
  then have "\<And>k. get_prop (Some data) k = None" by (rule get_prop_non_object)
  with False show ?thesis
    unfolding extractErrorMessage_def string_field_top string_field_nested generic_message_text
    by simp
qed

lemma generic_message_500: "generic_message 500 = lit ''Erreur upload (500)''"
  by (simp add: generic_message_def number_to_string_def decimal.simps lit_def)

theorem extractErrorMessage_priority_witness:
  "extractErrorMessage nested_error_body 500 = lit ''quota exceeded''
   \<and> extractErrorMessage (JObject [(lit ''message'', JString (lit ''other''))] :: int json) 500 = lit ''other''
   \<and> extractErrorMessage (JString (lit ''error'') :: int json) 500 = lit ''Erreur upload (500)''"
proof -
  have ne: "lit ''error'' \<noteq> lit ''message''" by (simp add: lit_def)
  from extractErrorMessage_priority [of nested_error_body 500] ne
  have 1: "extractErrorMessage nested_error_body 500 = lit ''quota exceeded''"
    by (simp add: nested_error_body_def string_field_def)
  from extractErrorMessage_priority [of "JObject [(lit ''message'', JString (lit ''other''))] :: int json" 500] ne
  have 2: "extractErrorMessage (JObject [(lit ''message'', JString (lit ''other''))] :: int json) 500 = lit ''other''"
    by (simp add: string_field_def)
  from extractErrorMessage_priority [of "JString (lit ''error'') :: int json" 500]
  have 3: "extractErrorMessage (JString (lit ''error'') :: int json) 500 = lit ''Erreur upload (500)''"
    by (simp add: string_field_def decimal.simps lit_def)
  from 1 2 3 show ?thesis by simp
qed

theorem extractErrorMessage_generic_text_counterexample:
  "extractErrorMessage (JNull :: int json) 500 = lit ''Erreur upload (500)''
   \<and> extractErrorMessage (JNull :: int json) 500 \<noteq> lit ''Upload failed (500)''"
  by (simp add: extractErrorMessage_def generic_message_500) (simp add: lit_def)

section \<open>Properties of configuration parsing\<close>

lemma parse_wildcards_glob:
  "list_all2 (\<lambda>re t. \<forall>s. test re s = glob_match no_line_terminator t s)
     (map compiled ts) ts"
  by (simp add: list_all2_map1 list_all2_same test_compiled)

text \<open>
  C3 (amended). Parsing never fails. It splits the configuration string on commas (the
  pieces contain no comma and joined by commas give the string back), trims each piece
  (what is removed at both ends is white space, and a non-empty result neither starts
  nor ends with white space) and discards the empty results. The exact-match set holds
  exactly the surviving tokens without a star. The patterns are those of the surviving
  tokens with a star, in order, and the pattern of a token accepts exactly the strings
  that match the token as a whole, every character other than \<open>*\<close> standing for
  itself and each \<open>*\<close> for any sequence of characters without a line terminator.
\<close>

theorem parseAllowedOrigins_tokens:
  "\<exists>allowed. parseAllowedOrigins raw = Inr allowed
     \<and> join COMMA (split_on COMMA raw) = raw
     \<and> (\<forall>p\<in>set (split_on COMMA raw). COMMA \<notin> set p
           \<and> (\<exists>pre post. p = pre @ js_trim p @ post
                 \<and> list_all is_js_space pre \<and> list_all is_js_space post)
           \<and> (js_trim p \<noteq> [] \<longrightarrow>
                 \<not> is_js_space (hd (js_trim p)) \<and> \<not> is_js_space (last (js_trim p))))
     \<and> tokenize raw = filter (\<lambda>t. t \<noteq> []) (map js_trim (split_on COMMA raw))
     \<and> set (exact allowed) = {t \<in> set (tokenize raw). STAR \<notin> set t}
     \<and> list_all2 (\<lambda>re t. \<forall>s. test re s = glob_match no_line_terminator t s)
           (wildcards allowed) (filter (\<lambda>t. STAR \<in> set t) (tokenize raw))"
proof -
  let ?a = "\<lparr>exact = fold set_add (exact_tokens raw) [],
              wildcards = map compiled (wildcard_tokens raw)\<rparr>"
  have p: "parseAllowedOrigins raw = Inr ?a" by (rule parseAllowedOrigins_result)
  have j: "join COMMA (split_on COMMA raw) = raw" by (rule split_on_join)
  have s: "\<forall>p\<in>set (split_on COMMA raw). COMMA \<notin> set p
           \<and> (\<exists>pre post. p = pre @ js_trim p @ post
                 \<and> list_all is_js_space pre \<and> list_all is_js_space post)
           \<and> (js_trim p \<noteq> [] \<longrightarrow>
                 \<not> is_js_space (hd (js_trim p)) \<and> \<not> is_js_space (last (js_trim p)))"
  proof
    fix p assume "p \<in> set (split_on COMMA raw)"
    then have "COMMA \<notin> set p" by (rule split_on_no_separator)
    moreover have "\<exists>pre post. p = pre @ js_trim p @ post
                 \<and> list_all is_js_space pre \<and> list_all is_js_space post"
      by (rule js_trim_decomposition)
    moreover have "js_trim p \<noteq> [] \<longrightarrow>
                 \<not> is_js_space (hd (js_trim p)) \<and> \<not> is_js_space (last (js_trim p))"
      using js_trim_ends by blast
    ultimately show "COMMA \<notin> set p
           \<and> (\<exists>pre post. p = pre @ js_trim p @ post
                 \<and> list_all is_js_space pre \<and> list_all is_js_space post)
           \<and> (js_trim p \<noteq> [] \<longrightarrow>
                 \<not> is_js_space (hd (js_trim p)) \<and> \<not> is_js_space (last (js_trim p)))"
      by (intro conjI)
  qed
  have t: "tokenize raw = filter (\<lambda>t. t \<noteq> []) (map js_trim (split_on COMMA raw))"
    by (simp add: tokenize_def)
  have e: "set (exact ?a) = {t \<in> set (tokenize raw). STAR \<notin> set t}"
    by (auto simp add: set_fold_set_add exact_tokens_def)
  have w: "list_all2 (\<lambda>re t. \<forall>s. test re s = glob_match no_line_terminator t s)
           (wildcards ?a) (filter (\<lambda>t. STAR \<in> set t) (tokenize raw))"
    using parse_wildcards_glob [of "wildcard_tokens raw"] by (simp add: wildcard_tokens_def)
  from p j s t e w show ?thesis by (intro exI [of _ ?a] conjI)
qed

lemma tokenize_spaced:
  "tokenize (lit '' https://a.com , https://*.b.com,, '') = [lit ''https://a.com'', lit ''https://*.b.com'']"
  by (simp add: tokenize_def js_trim_def is_js_space_def unit_defs)

lemma parse_spaced:
  "parseAllowedOrigins (lit '' https://a.com , https://*.b.com,, '') = Inr example_allowed"
  by (simp add: parseAllowedOrigins_result exact_tokens_def wildcard_tokens_def tokenize_spaced
      example_allowed_def set_add_def) (simp add: unit_defs)

lemma spaced_wildcard_tokens:
  "filter (\<lambda>t. STAR \<in> set t) (tokenize (lit '' https://a.com , https://*.b.com,, ''))
     = [lit ''https://*.b.com'']"
  by (simp add: tokenize_spaced) (simp add: unit_defs)

lemma example_pattern_tests:
  "test (compiled (lit ''https://*.b.com'')) (lit ''https://x.b.com'')"
  "\<not> test (compiled (lit ''https://*.b.com'')) (lit ''https://x.bxcom'')"
  "\<not> test (compiled (lit ''https://*.b.com'')) (lit ''https://x.b.com.evil'')"
  by (simp_all add: compiled_def term_of_def test_def line_terminator_def unit_defs)

theorem parseAllowedOrigins_tokens_witness:
  "parseAllowedOrigins (lit '' https://a.com , https://*.b.com,, '') = Inr example_allowed
   \<and> glob_match no_line_terminator (lit ''https://*.b.com'') (lit ''https://x.b.com'')
   \<and> \<not> glob_match no_line_terminator (lit ''https://*.b.com'') (lit ''https://x.bxcom'')
   \<and> \<not> glob_match no_line_terminator (lit ''https://*.b.com'') (lit ''https://x.b.com.evil'')"
proof -
  let ?raw = "lit '' https://a.com , https://*.b.com,, ''"
  from parseAllowedOrigins_tokens [of ?raw]
  obtain allowed where a: "parseAllowedOrigins ?raw = Inr allowed"
    and w: "list_all2 (\<lambda>re t. \<forall>s. test re s = glob_match no_line_terminator t s)
              (wildcards allowed) (filter (\<lambda>t. STAR \<in> set t) (tokenize ?raw))"
    by blast
  from a parse_spaced have "allowed = example_allowed" by simp
  with w have "list_all2 (\<lambda>re t. \<forall>s. test re s = glob_match no_line_terminator t s)
                 [compiled (lit ''https://*.b.com'')] [lit ''https://*.b.com'']"
    by (simp only: spaced_wildcard_tokens example_allowed_def allowed_origins.simps)
  then have g: "\<And>s. test (compiled (lit ''https://*.b.com'')) s
                  = glob_match no_line_terminator (lit ''https://*.b.com'') s"
    by (simp only: list_all2_Cons list_all2_Nil simp_thms)
  from example_pattern_tests parse_spaced show ?thesis
    by (simp only: g simp_thms)
qed

lemma prefix_source:
  "[CARET] @ replace_escaped_star (escapeRegExp (lit ''a*'')) @ [DOLLAR] = lit ''^a.*$''"
  by (simp add: in_escape_class_def unit_defs)

lemma tokenize_prefix: "tokenize (lit ''a*'') = [lit ''a*'']"
  by (simp add: tokenize_def js_trim_def is_js_space_def unit_defs)

lemma compiled_prefix:
  "compiled (lit ''a*'') = [AssertStart, Atom (Literal 0x61), Star AnyChar, AssertEnd]"
  by (simp add: compiled_def term_of_def unit_defs)

lemma parse_prefix: "parseAllowedOrigins (lit ''a*'') = Inr prefix_pattern"
  by (simp add: parseAllowedOrigins_result exact_tokens_def wildcard_tokens_def tokenize_prefix
      prefix_pattern_def) (simp add: unit_defs)

lemma glob_prefix_any: "glob_match any_unit (lit ''a*'') [0x61, 0x0A]"
  by code_simp

lemma test_prefix_newline:
  "\<not> test [AssertStart, Atom (Literal 0x61), Star AnyChar, AssertEnd] [0x61, 0x0A]"
  by (simp add: test_def line_terminator_def)

theorem wildcard_line_terminator_counterexample:
  "[CARET] @ replace_escaped_star (escapeRegExp (lit ''a*'')) @ [DOLLAR] = lit ''^a.*$''
   \<and> toWildcardRegExp (lit ''a*'') = Inr [AssertStart, Atom (Literal 0x61), Star AnyChar, AssertEnd]
   \<and> parseAllowedOrigins (lit ''a*'') = Inr prefix_pattern
   \<and> wildcards prefix_pattern = [[AssertStart, Atom (Literal 0x61), Star AnyChar, AssertEnd]]
   \<and> glob_match any_unit (lit ''a*'') [0x61, 0x0A]
   \<and> \<not> test [AssertStart, Atom (Literal 0x61), Star AnyChar, AssertEnd] [0x61, 0x0A]
   \<and> \<not> isAllowed prefix_pattern (Some [0x61, 0x0A])"
proof -
  have c: "toWildcardRegExp (lit ''a*'')
             = Inr [AssertStart, Atom (Literal 0x61), Star AnyChar, AssertEnd]"
    by (simp only: toWildcardRegExp_compiled compiled_prefix)
  have w: "wildcards prefix_pattern = [[AssertStart, Atom (Literal 0x61), Star AnyChar, AssertEnd]]"
    by (simp add: prefix_pattern_def compiled_prefix)
  have i: "\<not> isAllowed prefix_pattern (Some [0x61, 0x0A])"
    using test_prefix_newline by (simp add: isAllowed_def falsy_def prefix_pattern_def compiled_prefix)
  from prefix_source c parse_prefix w glob_prefix_any test_prefix_newline i show ?thesis
    by (intro conjI)
qed

section \<open>Faults inside the origin function\<close>









lemma oversize_token_open: "oversize_token \<noteq> []" "oversize_token \<noteq> lit ''*''"
  by (simp_all add: oversize_token_def lit_def)






end
